theory Spec2Isabelle
  imports Main "HOL-Library.Sublist"
begin

section \<open>Python values used by seller.py and market.py\<close>

text \<open>
  A Python \<open>str\<close> is a sequence of Unicode code points, so it is modelled as a list of
  code points. \<open>u\<close> embeds an ASCII literal; the Cyrillic letters of the price example
  are written as their code points.

  The rows of the feed (\<open>watch_remnants\<close>) are dictionaries with the keys
  \<open>"Kod"\<close>, \<open>"Kolichestvo"\<close> and \<open>"Tsena"\<close> (written in Cyrillic in the source); the
  docstrings give all three values as strings, so a row is a record of three strings and
  \<open>str(watch.get(k))\<close> is the field itself.
\<close>

type_synonym pystr = "nat list"

definition u :: "string \<Rightarrow> pystr" where
  "u s = map of_char s"

datatype error = ValueError | HTTPError

record watch =
  kod :: pystr
  kolichestvo :: pystr
  tsena :: pystr

subsection \<open>The builtin \<open>int(s)\<close> on a string\<close>

text \<open>
  \<open>int(s)\<close>, as CPython 3.11 computes it with its default settings. It skips whitespace
  on both sides, accepts one sign, and then wants decimal digits, where single underscores
  may stand between two digits; it raises \<open>ValueError\<close> on anything else, and also when
  the string has more than 4300 digits (the default of \<open>sys.set_int_max_str_digits\<close>;
  signs, underscores and whitespace do not count).

  The whitespace skipped is tab to carriage return, the space, and the white-space
  characters outside ASCII. The separators U+001C to U+001F, which \<open>str.isspace\<close>
  accepts, are not skipped. A decimal digit is a character of the Unicode category Nd
  (Unicode 14.0): the digits of every script come in runs of ten, from zero to nine, and
  \<open>decimal_zeros\<close> lists the zero of each run.
\<close>

definition is_space :: "nat \<Rightarrow> bool" where
  "is_space c \<longleftrightarrow>
     (9 \<le> c \<and> c \<le> 13) \<or> c = 32 \<or> c = 133 \<or> c = 160 \<or> c = 5760 \<or>
     (8192 \<le> c \<and> c \<le> 8202) \<or> c = 8232 \<or> c = 8233 \<or> c = 8239 \<or> c = 8287 \<or> c = 12288"

definition decimal_zeros :: "nat list" where
  "decimal_zeros =
    [48, 1632, 1776, 1984, 2406, 2534, 2662, 2790, 2918, 3046, 3174, 3302, 3430, 3558,
     3664, 3792, 3872, 4160, 4240, 6112, 6160, 6470, 6608, 6784, 6800, 6992, 7088, 7232,
     7248, 42528, 43216, 43264, 43472, 43504, 43600, 44016, 65296, 66720, 68912, 69734,
     69872, 69942, 70096, 70384, 70736, 70864, 71248, 71360, 71472, 71904, 72016, 72784,
     73040, 73120, 92768, 92864, 93008, 120782, 120792, 120802, 120812, 120822, 123200,
     123632, 125264, 130032]"

definition todecimal :: "nat \<Rightarrow> nat option" where
  "todecimal c =
     (case find (\<lambda>z. z \<le> c \<and> c < z + 10) decimal_zeros of
        None \<Rightarrow> None
      | Some z \<Rightarrow> Some (c - z))"

text \<open>The ASCII digits, the only ones that the pattern \<open>[^0-9]\<close> keeps.\<close>

definition is_digit :: "nat \<Rightarrow> bool" where
  "is_digit c \<longleftrightarrow> 48 \<le> c \<and> c \<le> 57"

definition strip :: "pystr \<Rightarrow> pystr" where
  "strip s = rev (dropWhile is_space (rev (dropWhile is_space s)))"

fun int_digits :: "nat \<Rightarrow> pystr \<Rightarrow> nat option" where
  "int_digits acc [] = Some acc"
| "int_digits acc (c # cs) =
     (case todecimal c of
        Some v \<Rightarrow> int_digits (10 * acc + v) cs
      | None \<Rightarrow>
          if c = 95 then
            (case cs of
               [] \<Rightarrow> None
             | d # ds \<Rightarrow> if todecimal d \<noteq> None then int_digits acc cs else None)
          else None)"

definition int_max_str_digits :: nat where
  "int_max_str_digits = 4300"

definition int_body :: "pystr \<Rightarrow> nat option" where
  "int_body s =
     (case s of
        [] \<Rightarrow> None
      | c # cs \<Rightarrow>
          if todecimal c = None then None
          else if int_max_str_digits < length (filter (\<lambda>c. todecimal c \<noteq> None) s) then None
          else int_digits 0 s)"

definition py_int :: "pystr \<Rightarrow> error + int" where
  "py_int s =
     (case strip s of
        [] \<Rightarrow> Inl ValueError
      | c # cs \<Rightarrow>
          if c = 45 then
            (case int_body cs of None \<Rightarrow> Inl ValueError | Some n \<Rightarrow> Inr (- int n))
          else if c = 43 then
            (case int_body cs of None \<Rightarrow> Inl ValueError | Some n \<Rightarrow> Inr (int n))
          else
            (case int_body (c # cs) of None \<Rightarrow> Inl ValueError | Some n \<Rightarrow> Inr (int n)))"

text \<open>The value of a string of decimal digits, most significant digit first.\<close>

definition decimal :: "pystr \<Rightarrow> nat" where
  "decimal ds = foldl (\<lambda>a c. 10 * a + (c - 48)) 0 ds"

section \<open>seller.py: price_conversion and divide\<close>

text \<open>
  \<open>price.split(".")\<close>: the pieces of the string between the dots, never an empty list.
\<close>

fun split_on :: "nat \<Rightarrow> pystr \<Rightarrow> pystr list" where
  "split_on sep [] = [[]]"
| "split_on sep (c # cs) =
     (if c = sep then [] # split_on sep cs
      else (case split_on sep cs of
              [] \<Rightarrow> [[c]]
            | p # ps \<Rightarrow> (c # p) # ps))"

text \<open>\<open>re.sub("[^0-9]", "", s)\<close>: every character outside \<open>0\<close>..\<open>9\<close> is deleted.\<close>

definition re_sub_non_digits :: "pystr \<Rightarrow> pystr" where
  "re_sub_non_digits s = filter is_digit s"

definition price_conversion :: "pystr \<Rightarrow> pystr" where
  "price_conversion price = re_sub_non_digits (split_on 46 price ! 0)"

text \<open>
  \<open>range(0, stop, step)\<close> for a positive step, and the slice \<open>lst[i : i + n]\<close> for
  \<open>0 \<le> i\<close>. \<open>divide\<close> is a generator that every caller consumes with \<open>list(...)\<close>; the
  model is that list. A zero step raises \<open>ValueError\<close>; a negative step gives an empty
  range, as the start \<open>0\<close> is not above \<open>len(lst)\<close>.
\<close>

function range_up :: "int \<Rightarrow> int \<Rightarrow> int \<Rightarrow> int list" where
  "range_up i stop step =
     (if 0 < step \<and> i < stop then i # range_up (i + step) stop step else [])"
  by pat_completeness auto
termination
  by (relation "measure (\<lambda>(i, stop, step). nat (stop - i))") auto

definition slice :: "'a list \<Rightarrow> int \<Rightarrow> int \<Rightarrow> 'a list" where
  "slice lst i j = take (nat (j - i)) (drop (nat i) lst)"

definition divide :: "'a list \<Rightarrow> int \<Rightarrow> error + 'a list list" where
  "divide lst n =
     (if n = 0 then Inl ValueError
      else Inr (map (\<lambda>i. slice lst i (i + n)) (range_up 0 (int (length lst)) n)))"

section \<open>seller.py: the reconciler of Marketplace B\<close>

text \<open>
  The quantity rule of \<open>create_stocks\<close> (the \<open>if\<close>/\<open>elif\<close>/\<open>else\<close> on \<open>count\<close>, the
  same lines in both files).
\<close>

definition stock_of_count :: "pystr \<Rightarrow> error + int" where
  "stock_of_count count =
     (if count = u ''>10'' then Inr 100
      else if count = u ''1'' then Inr 0
      else py_int count)"

record stock_entry =
  offer_id :: pystr
  stock :: int

text \<open>
  \<open>offer_ids\<close> is the list that \<open>get_offer_ids\<close> returns. \<open>x in offer_ids\<close> is list
  membership and \<open>offer_ids.remove(x)\<close> deletes the first occurrence of \<open>x\<close>; it cannot
  raise here, as membership was tested just before. The loop threads the output list and
  the caller's list; the function returns the output together with the caller's list as
  the call leaves it.
\<close>

fun seller_stocks_loop ::
  "watch list \<Rightarrow> stock_entry list \<Rightarrow> pystr list \<Rightarrow> error + (stock_entry list \<times> pystr list)"
where
  "seller_stocks_loop [] stocks offer_ids = Inr (stocks, offer_ids)"
| "seller_stocks_loop (watch # rest) stocks offer_ids =
     (if kod watch \<in> set offer_ids then
        (case stock_of_count (kolichestvo watch) of
           Inl e \<Rightarrow> Inl e
         | Inr n \<Rightarrow>
             seller_stocks_loop rest
               (stocks @ [\<lparr>offer_id = kod watch, stock = n\<rparr>])
               (remove1 (kod watch) offer_ids))
      else seller_stocks_loop rest stocks offer_ids)"

definition seller_create_stocks ::
  "watch list \<Rightarrow> pystr list \<Rightarrow> error + (stock_entry list \<times> pystr list)"
where
  "seller_create_stocks watch_remnants offer_ids =
     (case seller_stocks_loop watch_remnants [] offer_ids of
        Inl e \<Rightarrow> Inl e
      | Inr (stocks, ids) \<Rightarrow>
          Inr (stocks @ map (\<lambda>i. \<lparr>offer_id = i, stock = 0\<rparr>) ids, ids))"

record price_entry =
  auto_action_enabled :: pystr
  currency_code :: pystr
  price_offer_id :: pystr
  old_price :: pystr
  price :: pystr

text \<open>\<open>create_prices\<close> only reads \<open>offer_ids\<close>; nothing is removed from it.\<close>

fun seller_create_prices :: "watch list \<Rightarrow> pystr list \<Rightarrow> price_entry list" where
  "seller_create_prices [] offer_ids = []"
| "seller_create_prices (watch # rest) offer_ids =
     (if kod watch \<in> set offer_ids then
        \<lparr>auto_action_enabled = u ''UNKNOWN'', currency_code = u ''RUB'',
         price_offer_id = kod watch, old_price = u ''0'',
         price = price_conversion (tsena watch)\<rparr> # seller_create_prices rest offer_ids
      else seller_create_prices rest offer_ids)"

section \<open>market.py: the reconciler of Marketplace A\<close>

record stock_item =
  count :: int
  item_type :: pystr
  updatedAt :: pystr

record sku_entry =
  sku :: pystr
  warehouseId :: pystr
  items :: "stock_item list"

text \<open>
  \<open>date\<close> is what the call reads from the clock,
  \<open>utcnow().replace(microsecond=0).isoformat() + "Z"\<close>; it is an input of the model.
\<close>

fun market_stocks_loop ::
  "pystr \<Rightarrow> pystr \<Rightarrow> watch list \<Rightarrow> sku_entry list \<Rightarrow> pystr list \<Rightarrow>
   error + (sku_entry list \<times> pystr list)"
where
  "market_stocks_loop date warehouse_id [] stocks offer_ids = Inr (stocks, offer_ids)"
| "market_stocks_loop date warehouse_id (watch # rest) stocks offer_ids =
     (if kod watch \<in> set offer_ids then
        (case stock_of_count (kolichestvo watch) of
           Inl e \<Rightarrow> Inl e
         | Inr n \<Rightarrow>
             market_stocks_loop date warehouse_id rest
               (stocks @ [\<lparr>sku = kod watch, warehouseId = warehouse_id,
                           items = [\<lparr>count = n, item_type = u ''FIT'', updatedAt = date\<rparr>]\<rparr>])
               (remove1 (kod watch) offer_ids))
      else market_stocks_loop date warehouse_id rest stocks offer_ids)"

definition market_create_stocks ::
  "pystr \<Rightarrow> watch list \<Rightarrow> pystr list \<Rightarrow> pystr \<Rightarrow> error + (sku_entry list \<times> pystr list)"
where
  "market_create_stocks date watch_remnants offer_ids warehouse_id =
     (case market_stocks_loop date warehouse_id watch_remnants [] offer_ids of
        Inl e \<Rightarrow> Inl e
      | Inr (stocks, ids) \<Rightarrow>
          Inr (stocks @
               map (\<lambda>i. \<lparr>sku = i, warehouseId = warehouse_id,
                          items = [\<lparr>count = 0, item_type = u ''FIT'', updatedAt = date\<rparr>]\<rparr>) ids,
               ids))"

record price_body =
  price_value :: int
  currencyId :: pystr

record offer_price =
  offer_price_id :: pystr
  offer_price_body :: price_body

text \<open>Here the digits are converted with \<open>int(...)\<close>, which raises on the empty string.\<close>

fun market_create_prices :: "watch list \<Rightarrow> pystr list \<Rightarrow> error + offer_price list" where
  "market_create_prices [] offer_ids = Inr []"
| "market_create_prices (watch # rest) offer_ids =
     (if kod watch \<in> set offer_ids then
        (case py_int (price_conversion (tsena watch)) of
           Inl e \<Rightarrow> Inl e
         | Inr v \<Rightarrow>
             (case market_create_prices rest offer_ids of
                Inl e \<Rightarrow> Inl e
              | Inr prices \<Rightarrow>
                  Inr (\<lparr>offer_price_id = kod watch,
                        offer_price_body = \<lparr>price_value = v, currencyId = u ''RUR''\<rparr>\<rparr>
                       # prices)))
      else market_create_prices rest offer_ids)"

section \<open>The offer resolvers\<close>

text \<open>
  \<open>get_product_list\<close> is an HTTP call. The marketplace is a state \<open>'s\<close> and the call a
  function from that state and the cursor to the response, or the \<open>HTTPError\<close> of
  \<open>raise_for_status\<close>, and the next state. The loop \<open>while True\<close> has no bound, so it
  is a partial function: \<open>None\<close> is a loop that never ends.
\<close>

record product =
  product_offer_id :: pystr

record product_page =
  page_items :: "product list"
  total :: int
  last_id :: pystr

partial_function (option) seller_products_loop ::
  "('s \<Rightarrow> pystr \<Rightarrow> (error + product_page) \<times> 's) \<Rightarrow> 's \<Rightarrow> pystr \<Rightarrow> product list \<Rightarrow>
   ((error + product list) \<times> 's) option"
where
  "seller_products_loop get_product_list s cursor product_list =
     (case get_product_list s cursor of
        (Inl e, s') \<Rightarrow> Some (Inl e, s')
      | (Inr some_prod, s') \<Rightarrow>
          (let product_list' = product_list @ page_items some_prod in
           if total some_prod = int (length product_list') then Some (Inr product_list', s')
           else seller_products_loop get_product_list s' (last_id some_prod) product_list'))"

definition seller_get_offer_ids ::
  "('s \<Rightarrow> pystr \<Rightarrow> (error + product_page) \<times> 's) \<Rightarrow> 's \<Rightarrow> ((error + pystr list) \<times> 's) option"
where
  "seller_get_offer_ids get_product_list s =
     (case seller_products_loop get_product_list s [] [] of
        None \<Rightarrow> None
      | Some (Inl e, s') \<Rightarrow> Some (Inl e, s')
      | Some (Inr product_list, s') \<Rightarrow> Some (Inr (map product_offer_id product_list), s'))"

record offer =
  shopSku :: pystr

record mapping_entry =
  entry_offer :: offer

record mapping_page =
  offerMappingEntries :: "mapping_entry list"
  nextPageToken :: "pystr option"

text \<open>\<open>not page\<close> holds for an absent token and for the empty string.\<close>

definition falsy :: "pystr option \<Rightarrow> bool" where
  "falsy page = (case page of None \<Rightarrow> True | Some t \<Rightarrow> t = [])"

partial_function (option) market_products_loop ::
  "('s \<Rightarrow> pystr option \<Rightarrow> (error + mapping_page) \<times> 's) \<Rightarrow> 's \<Rightarrow> pystr option \<Rightarrow>
   mapping_entry list \<Rightarrow> ((error + mapping_entry list) \<times> 's) option"
where
  "market_products_loop get_product_list s page product_list =
     (case get_product_list s page of
        (Inl e, s') \<Rightarrow> Some (Inl e, s')
      | (Inr some_prod, s') \<Rightarrow>
          (let product_list' = product_list @ offerMappingEntries some_prod in
           if falsy (nextPageToken some_prod) then Some (Inr product_list', s')
           else market_products_loop get_product_list s' (nextPageToken some_prod) product_list'))"

definition market_get_offer_ids ::
  "('s \<Rightarrow> pystr option \<Rightarrow> (error + mapping_page) \<times> 's) \<Rightarrow> 's \<Rightarrow>
   ((error + pystr list) \<times> 's) option"
where
  "market_get_offer_ids get_product_list s =
     (case market_products_loop get_product_list s (Some []) [] of
        None \<Rightarrow> None
      | Some (Inl e, s') \<Rightarrow> Some (Inl e, s')
      | Some (Inr product_list, s') \<Rightarrow>
          Some (Inr (map (\<lambda>p. shopSku (entry_offer p)) product_list), s'))"

section \<open>Auxiliary notions for the statements\<close>

text \<open>
  The entry of market.py that corresponds to an entry of seller.py: the same identifier
  and count, in the schema of Marketplace A, with the warehouse and the clock reading of
  the call.
\<close>

definition sku_of :: "pystr \<Rightarrow> pystr \<Rightarrow> stock_entry \<Rightarrow> sku_entry" where
  "sku_of date warehouse_id e =
     \<lparr>sku = offer_id e, warehouseId = warehouse_id,
      items = [\<lparr>count = stock e, item_type = u ''FIT'', updatedAt = date\<rparr>]\<rparr>"

text \<open>
  The feed records that are the first of their code in the feed, in feed order.
\<close>

fun first_records :: "watch list \<Rightarrow> watch list" where
  "first_records [] = []"
| "first_records (w # ws) = w # filter (\<lambda>v. kod v \<noteq> kod w) (first_records ws)"

text \<open>
  The responses of the first \<open>n\<close> calls that the pagination loop makes, each call with the
  cursor that the previous response gave; the list stops early at a failed call.
\<close>

fun seller_pages ::
  "('s \<Rightarrow> pystr \<Rightarrow> (error + product_page) \<times> 's) \<Rightarrow> 's \<Rightarrow> pystr \<Rightarrow> nat \<Rightarrow> product_page list"
where
  "seller_pages get_product_list s cursor 0 = []"
| "seller_pages get_product_list s cursor (Suc n) =
     (case get_product_list s cursor of
        (Inl e, s') \<Rightarrow> []
      | (Inr some_prod, s') \<Rightarrow>
          some_prod # seller_pages get_product_list s' (last_id some_prod) n)"

fun market_pages ::
  "('s \<Rightarrow> pystr option \<Rightarrow> (error + mapping_page) \<times> 's) \<Rightarrow> 's \<Rightarrow> pystr option \<Rightarrow> nat \<Rightarrow>
   mapping_page list"
where
  "market_pages get_product_list s page 0 = []"
| "market_pages get_product_list s page (Suc n) =
     (case get_product_list s page of
        (Inl e, s') \<Rightarrow> []
      | (Inr some_prod, s') \<Rightarrow>
          some_prod # market_pages get_product_list s' (nextPageToken some_prod) n)"

section \<open>Strings and numbers\<close>

lemma split_on_nonempty: "split_on sep s \<noteq> []"
  by (induction s) (auto split: list.splits)

lemma split_on_first: "split_on sep s ! 0 = takeWhile (\<lambda>c. c \<noteq> sep) s"
  by (induction s) (auto split: list.splits simp: split_on_nonempty)

lemma price_conversion_eq:
  "price_conversion s = filter is_digit (takeWhile (\<lambda>c. c \<noteq> 46) s)"
  by (simp add: price_conversion_def re_sub_non_digits_def split_on_first)

lemma todecimal_digit: "is_digit c \<Longrightarrow> todecimal c = Some (c - 48)"
  by (simp add: todecimal_def decimal_zeros_def is_digit_def)

lemma int_digits_all_digits:
  "list_all is_digit ds \<Longrightarrow> int_digits a ds = Some (foldl (\<lambda>a c. 10 * a + (c - 48)) a ds)"
  by (induction ds arbitrary: a) (auto simp: todecimal_digit)

lemma count_all_digits:
  "list_all is_digit ds \<Longrightarrow> filter (\<lambda>c. todecimal c \<noteq> None) ds = ds"
  by (induction ds) (auto simp: todecimal_digit)

lemma digit_not_space: "is_digit c \<Longrightarrow> \<not> is_space c"
  by (auto simp: is_digit_def is_space_def)

lemma strip_no_space_ends:
  assumes "s \<noteq> []" "\<not> is_space (hd s)" "\<not> is_space (last s)"
  shows "strip s = s"
proof -
  from assms have a: "dropWhile is_space s = s"
    by (cases s) auto
  from assms have "dropWhile is_space (rev s) = rev s"
    by (cases "rev s") (auto simp: last_rev hd_rev dest: arg_cong[where f=hd])
  with a show ?thesis by (simp add: strip_def)
qed

lemma strip_digits:
  assumes "list_all is_digit ds"
  shows "strip ds = ds"
proof (cases "ds = []")
  case True
  then show ?thesis by (simp add: strip_def)
next
  case False
  with assms have "is_digit (hd ds)" "is_digit (last ds)"
    by (auto simp: list_all_iff)
  with False show ?thesis
    by (intro strip_no_space_ends) (auto dest: digit_not_space)
qed

lemma int_body_digits:
  assumes "ds \<noteq> []" "list_all is_digit ds"
  shows "int_body ds = (if 4300 < length ds then None else Some (decimal ds))"
proof -
  from assms obtain c cs where ds: "ds = c # cs" and c: "is_digit c"
    by (cases ds) auto
  have "int_digits 0 ds = Some (decimal ds)"
    using assms(2) by (simp add: decimal_def int_digits_all_digits)
  then show ?thesis
    using count_all_digits[OF assms(2)] todecimal_digit[OF c] unfolding ds
    by (simp add: int_body_def int_max_str_digits_def del: int_digits.simps)
qed

lemma py_int_ascii_digits:
  assumes "list_all is_digit ds"
  shows "py_int ds =
    (if ds = [] \<or> 4300 < length ds then Inl ValueError else Inr (int (decimal ds)))"
proof (cases ds)
  case Nil
  then show ?thesis by (simp add: py_int_def strip_def)
next
  case (Cons c cs)
  with assms have "is_digit c" by simp
  then have "c \<noteq> 45" "c \<noteq> 43"
    by (auto simp: is_digit_def)
  then show ?thesis
    using strip_digits[OF assms] int_body_digits[OF _ assms] Cons
    by (simp add: py_int_def)
qed


lemma py_int_empty: "py_int [] = Inl ValueError"
  by (simp add: py_int_def strip_def)

lemma todecimal_examples:
  "todecimal 28 = None" "todecimal 1635 = Some 3" "todecimal 95 = None" "todecimal 32 = None"
  "todecimal 45 = None" "todecimal 48 = Some 0" "todecimal 49 = Some 1" "todecimal 53 = Some 5"
  by (simp_all add: todecimal_def decimal_zeros_def)

lemma py_int_examples:
  "py_int [28, 53] = Inl ValueError" "py_int [1635] = Inr 3" "py_int (u '' -1_0 '') = Inr (- 10)"
  "py_int (u ''01'') = Inr 1" "py_int (u ''1__0'') = Inl ValueError"
  by (simp_all add: py_int_def strip_def is_space_def int_body_def int_max_str_digits_def
      todecimal_examples u_def)

section \<open>The quantity rule\<close>



section \<open>The batcher\<close>

lemma range_up_nonempty: "0 < n \<Longrightarrow> range_up i stop n \<noteq> [] \<longleftrightarrow> i < stop"
  by (subst range_up.simps) simp

lemma concat_chunks:
  "0 < n \<Longrightarrow> 0 \<le> i \<Longrightarrow>
   concat (map (\<lambda>i. slice lst i (i + n)) (range_up i (int (length lst)) n)) = drop (nat i) lst"
proof (induction i "int (length lst)" n rule: range_up.induct)
  case (1 i step)
  show ?case
  proof (cases "i < int (length lst)")
    case True
    with 1 have "concat (map (\<lambda>i. slice lst i (i + step))
        (range_up (i + step) (int (length lst)) step)) = drop (nat (i + step)) lst"
      by simp
    moreover have "nat (i + step) = nat step + nat i"
      using 1 by (simp add: nat_add_distrib)
    ultimately show ?thesis
      using True 1(2)
      by (subst range_up.simps) (simp add: slice_def drop_drop[symmetric] del: drop_drop)
  next
    case False
    then show ?thesis
      by (subst range_up.simps) simp
  qed
qed

lemma chunk_lengths:
  "0 < n \<Longrightarrow> 0 \<le> i \<Longrightarrow>
   cs = map (\<lambda>i. slice lst i (i + n)) (range_up i (int (length lst)) n) \<Longrightarrow>
   (\<forall>c \<in> set (butlast cs). int (length c) = n) \<and>
   (cs \<noteq> [] \<longrightarrow> 0 < length (last cs) \<and> int (length (last cs)) \<le> n)"
proof (induction i "int (length lst)" n arbitrary: cs rule: range_up.induct)
  case (1 i step)
  show ?case
  proof (cases "i < int (length lst)")
    case True
    define rest where
      "rest = map (\<lambda>i. slice lst i (i + step)) (range_up (i + step) (int (length lst)) step)"
    have cs: "cs = slice lst i (i + step) # rest"
      using True 1(2,4) unfolding rest_def by (subst (asm) range_up.simps) simp
    have ih: "(\<forall>c \<in> set (butlast rest). int (length c) = step) \<and>
              (rest \<noteq> [] \<longrightarrow> 0 < length (last rest) \<and> int (length (last rest)) \<le> step)"
      using 1(1)[OF _ _ _ rest_def] True 1(2,3) by simp
    have len: "int (length (slice lst i (i + step))) = min step (int (length lst) - i)"
      using 1(2,3) True by (simp add: slice_def)
    have "rest \<noteq> [] \<longleftrightarrow> i + step < int (length lst)"
      using 1(2) by (simp add: rest_def range_up_nonempty)
    with ih len True 1(2) show ?thesis
      unfolding cs by (cases "rest = []") auto
  next
    case False
    with 1(4) show ?thesis
      by (subst (asm) range_up.simps) simp
  qed
qed

lemma divide_zero: "divide lst 0 = Inl ValueError"
  by (simp add: divide_def)

lemma divide_negative: "n < 0 \<Longrightarrow> divide lst n = Inr []"
  by (simp add: divide_def)

text \<open>
  C7. For a positive chunk size \<open>n\<close>, \<open>divide lst n\<close> returns chunks whose concatenation
  is \<open>lst\<close>; every chunk but the last has exactly \<open>n\<close> elements and the last one has between
  1 and \<open>n\<close>. \<open>divide [1,2,3,4,5] 2\<close> is \<open>[[1,2],[3,4],[5]]\<close> and the empty list gives no
  chunk.
\<close>

theorem divide_chunks:
  "0 < n \<Longrightarrow>
     (\<exists>cs. divide lst n = Inr cs \<and> concat cs = lst \<and>
        (\<forall>c \<in> set (butlast cs). int (length c) = n) \<and>
        (cs \<noteq> [] \<longrightarrow> 0 < length (last cs) \<and> int (length (last cs)) \<le> n)) \<and>
     divide [1, 2, 3, 4, 5 :: int] 2 = Inr [[1, 2], [3, 4], [5]] \<and>
     divide ([] :: 'a list) n = Inr []"
proof -
  assume n: "0 < n"
  define cs where "cs = map (\<lambda>i. slice lst i (i + n)) (range_up 0 (int (length lst)) n)"
  have "divide lst n = Inr cs"
    using n by (simp add: divide_def cs_def)
  moreover have "concat cs = lst"
    using concat_chunks[OF n, of 0 lst] by (simp add: cs_def)
  moreover note chunk_lengths[OF n _ cs_def]
  moreover have "divide [1, 2, 3, 4, 5 :: int] 2 = Inr [[1, 2], [3, 4], [5]]"
    by (simp add: divide_def slice_def)
  moreover have "divide ([] :: 'a list) n = Inr []"
    using n by (simp add: divide_def)
  ultimately show ?thesis
    by simp
qed

theorem divide_chunks_witness:
  "(0 :: int) < 2 \<and> divide [10, 20, 30 :: nat] 2 = Inr [[10, 20], [30]] \<and>
   concat [[10, 20], [30 :: nat]] = [10, 20, 30] \<and> divide ([] :: nat list) 2 = Inr []"
  using divide_chunks[of 2 "[10, 20, 30 :: nat]"] by (simp add: divide_def slice_def)

section \<open>Prices\<close>

lemma price_conversion_digits: "list_all is_digit (price_conversion s)"
  by (simp add: price_conversion_eq list_all_iff)

lemma price_conversion_empty:
  "price_conversion s = [] \<longleftrightarrow> \<not> list_ex is_digit (takeWhile (\<lambda>c. c \<noteq> 46) s)"
  by (simp add: price_conversion_eq filter_empty_conv list_ex_iff)

lemma py_int_price_conversion:
  "py_int (price_conversion s) =
     (if price_conversion s = [] \<or> 4300 < length (price_conversion s) then Inl ValueError
      else Inr (int (decimal (price_conversion s))))"
  by (simp add: py_int_ascii_digits price_conversion_digits)

lemma market_create_prices_ok:
  "\<forall>w \<in> set F. kod w \<in> set S \<longrightarrow>
     price_conversion (tsena w) \<noteq> [] \<and> length (price_conversion (tsena w)) \<le> 4300 \<Longrightarrow>
   market_create_prices F S =
     Inr (map (\<lambda>w. \<lparr>offer_price_id = kod w,
                     offer_price_body = \<lparr>price_value = int (decimal (price_conversion (tsena w))),
                                         currencyId = u ''RUR''\<rparr>\<rparr>)
            (filter (\<lambda>w. kod w \<in> set S) F))"
  by (induction F) (auto simp: py_int_price_conversion)

lemma market_create_prices_fail:
  "\<exists>w \<in> set F. kod w \<in> set S \<and>
     (price_conversion (tsena w) = [] \<or> 4300 < length (price_conversion (tsena w))) \<Longrightarrow>
   market_create_prices F S = Inl ValueError"
proof (induction F)
  case Nil
  then show ?case by simp
next
  case (Cons w F)
  show ?case
  proof (cases "kod w \<in> set S \<and>
      (price_conversion (tsena w) = [] \<or> 4300 < length (price_conversion (tsena w)))")
    case True
    then show ?thesis
      by (simp add: py_int_price_conversion)
  next
    case False
    with Cons.prems have "\<exists>w \<in> set F. kod w \<in> set S \<and>
        (price_conversion (tsena w) = [] \<or> 4300 < length (price_conversion (tsena w)))"
      by auto
    from Cons.IH[OF this] show ?thesis
      by (simp add: py_int_price_conversion)
  qed
qed

lemma seller_create_prices_eq:
  "seller_create_prices F S =
     map (\<lambda>w. \<lparr>auto_action_enabled = u ''UNKNOWN'', currency_code = u ''RUB'',
               price_offer_id = kod w, old_price = u ''0'',
               price = price_conversion (tsena w)\<rparr>)
         (filter (\<lambda>w. kod w \<in> set S) F)"
  by (induction F) simp_all

text \<open>
  C3, as the claim states it, fails on its third example: \<open>"1.999,50"\<close> is cut at its
  first dot, which leaves \<open>"1"\<close>, not \<open>"1999"\<close>.
\<close>

theorem price_conversion_dot_counterexample:
  "price_conversion (u ''1.999,50'') \<noteq> u ''1999''"
  by (simp add: price_conversion_eq u_def is_digit_def)

text \<open>
  C3, amended. \<open>price_conversion\<close> keeps what stands before the first dot of its input
  (all of it when there is no dot) and deletes every character that is not a digit there.
  \<open>"5'990.00 rub."\<close> (the currency in Cyrillic) gives \<open>"5990"\<close>, \<open>"100"\<close> gives \<open>"100"\<close>
  and \<open>"1.999,50"\<close> gives \<open>"1"\<close>.
\<close>

theorem price_conversion_rule:
  "price_conversion s = filter is_digit (takeWhile (\<lambda>c. c \<noteq> 46) s) \<and>
   price_conversion (u ''5'990.00 '' @ [1088, 1091, 1073] @ u ''.'') = u ''5990'' \<and>
   price_conversion (u ''100'') = u ''100'' \<and>
   price_conversion (u ''1.999,50'') = u ''1''"
  by (simp add: price_conversion_eq u_def is_digit_def)

theorem price_conversion_rule_witness:
  "price_conversion (u ''12a.7'') = u ''12''"
  using price_conversion_rule[of "u ''12a.7''"] by (simp add: u_def is_digit_def)

text \<open>
  C10, as the claim states it, fails: \<open>int\<close> also raises \<open>ValueError\<close> on more than
  4300 digits, so a matched record whose price has 4301 digits before its first dot makes
  \<open>create_prices\<close> of market.py fail although digits stand there.
\<close>

theorem market_create_prices_digit_limit_counterexample:
  "list_ex is_digit (takeWhile (\<lambda>c. c \<noteq> 46) (replicate 4301 49)) \<and>
   market_create_prices
     [\<lparr>kod = u ''A'', kolichestvo = u ''5'', tsena = replicate 4301 49\<rparr>] [u ''A''] =
     Inl ValueError"
proof -
  have pc: "price_conversion (replicate 4301 49) = replicate 4301 49"
    by (simp add: price_conversion_eq is_digit_def)
  have "market_create_prices
     [\<lparr>kod = u ''A'', kolichestvo = u ''5'', tsena = replicate 4301 49\<rparr>] [u ''A''] =
     Inl ValueError"
    by (rule market_create_prices_fail) (simp add: pc)
  moreover have "list_ex is_digit (takeWhile (\<lambda>c. c \<noteq> 46) (replicate 4301 49))"
    by (simp add: list_ex_iff is_digit_def)
  ultimately show ?thesis
    by simp
qed

text \<open>
  C10, amended. \<open>price_conversion\<close> returns digits only, and returns the empty string
  exactly when no digit stands before the first dot of its input. \<open>create_prices\<close> of
  market.py raises \<open>ValueError\<close> exactly when some feed record whose code is in the
  identifier list has a price with no digit, or with more than 4300 digits, before its
  first dot; otherwise it returns, for every matched record in feed order, the decimal
  value of the digits.
\<close>

theorem market_create_prices_fails_iff:
  "list_all is_digit (price_conversion s) \<and>
   (price_conversion s = [] \<longleftrightarrow> \<not> list_ex is_digit (takeWhile (\<lambda>c. c \<noteq> 46) s)) \<and>
   (market_create_prices F S = Inl ValueError \<longleftrightarrow>
      (\<exists>w \<in> set F. kod w \<in> set S \<and>
         (\<not> list_ex is_digit (takeWhile (\<lambda>c. c \<noteq> 46) (tsena w)) \<or>
          4300 < length (filter is_digit (takeWhile (\<lambda>c. c \<noteq> 46) (tsena w)))))) \<and>
   (\<not> (\<exists>w \<in> set F. kod w \<in> set S \<and>
         (\<not> list_ex is_digit (takeWhile (\<lambda>c. c \<noteq> 46) (tsena w)) \<or>
          4300 < length (filter is_digit (takeWhile (\<lambda>c. c \<noteq> 46) (tsena w))))) \<longrightarrow>
      market_create_prices F S =
        Inr (map (\<lambda>w. \<lparr>offer_price_id = kod w,
                     offer_price_body = \<lparr>price_value = int (decimal (price_conversion (tsena w))),
                                         currencyId = u ''RUR''\<rparr>\<rparr>)
            (filter (\<lambda>w. kod w \<in> set S) F)))"
proof -
  let ?bad = "\<exists>w \<in> set F. kod w \<in> set S \<and>
    (\<not> list_ex is_digit (takeWhile (\<lambda>c. c \<noteq> 46) (tsena w)) \<or>
     4300 < length (filter is_digit (takeWhile (\<lambda>c. c \<noteq> 46) (tsena w))))"
  have bad: "?bad \<longleftrightarrow> (\<exists>w \<in> set F. kod w \<in> set S \<and>
      (price_conversion (tsena w) = [] \<or> 4300 < length (price_conversion (tsena w))))"
    by (simp add: price_conversion_empty) (simp add: price_conversion_eq)
  have ok: "market_create_prices F S =
        Inr (map (\<lambda>w. \<lparr>offer_price_id = kod w,
                     offer_price_body = \<lparr>price_value = int (decimal (price_conversion (tsena w))),
                                         currencyId = u ''RUR''\<rparr>\<rparr>)
            (filter (\<lambda>w. kod w \<in> set S) F))" if "\<not> ?bad"
    using that unfolding bad by (intro market_create_prices_ok) (auto simp: not_less)
  have fail: "market_create_prices F S = Inl ValueError" if "?bad"
    using that unfolding bad by (rule market_create_prices_fail)
  have iff: "market_create_prices F S = Inl ValueError \<longleftrightarrow> ?bad"
  proof
    assume e: "market_create_prices F S = Inl ValueError"
    show "?bad"
    proof (rule ccontr)
      assume "\<not> ?bad"
      from ok[OF this] e show False by simp
    qed
  qed (rule fail)
  from price_conversion_digits[of s] price_conversion_empty[of s] iff ok show ?thesis
    by blast
qed

theorem market_create_prices_fails_iff_witness:
  "market_create_prices
     [\<lparr>kod = u ''A'', kolichestvo = u ''5'', tsena = u ''5'990.00''\<rparr>,
      \<lparr>kod = u ''B'', kolichestvo = u ''5'', tsena = u ''.50''\<rparr>] [u ''A'', u ''C''] =
     Inr [\<lparr>offer_price_id = u ''A'',
           offer_price_body = \<lparr>price_value = 5990, currencyId = u ''RUR''\<rparr>\<rparr>] \<and>
   market_create_prices
     [\<lparr>kod = u ''A'', kolichestvo = u ''5'', tsena = u ''5'990.00''\<rparr>,
      \<lparr>kod = u ''B'', kolichestvo = u ''5'', tsena = u ''.50''\<rparr>] [u ''A'', u ''B''] =
     Inl ValueError"
proof -
  let ?F = "[\<lparr>kod = u ''A'', kolichestvo = u ''5'', tsena = u ''5'990.00''\<rparr>,
      \<lparr>kod = u ''B'', kolichestvo = u ''5'', tsena = u ''.50''\<rparr>]"
  have a: "\<not> (\<exists>w \<in> set ?F. kod w \<in> set [u ''A'', u ''C''] \<and>
         (\<not> list_ex is_digit (takeWhile (\<lambda>c. c \<noteq> 46) (tsena w)) \<or>
          4300 < length (filter is_digit (takeWhile (\<lambda>c. c \<noteq> 46) (tsena w)))))"
    by (simp add: u_def is_digit_def)
  have b: "\<exists>w \<in> set ?F. kod w \<in> set [u ''A'', u ''B''] \<and>
         (\<not> list_ex is_digit (takeWhile (\<lambda>c. c \<noteq> 46) (tsena w)) \<or>
          4300 < length (filter is_digit (takeWhile (\<lambda>c. c \<noteq> 46) (tsena w))))"
    by (simp add: u_def is_digit_def)
  have d: "decimal (price_conversion (u ''5'990.00'')) = 5990"
    by (simp add: price_conversion_eq decimal_def u_def is_digit_def)
  from a market_create_prices_fails_iff[of "[]" ?F "[u ''A'', u ''C'']"]
  have "market_create_prices ?F [u ''A'', u ''C''] =
        Inr (map (\<lambda>w. \<lparr>offer_price_id = kod w,
                     offer_price_body = \<lparr>price_value = int (decimal (price_conversion (tsena w))),
                                         currencyId = u ''RUR''\<rparr>\<rparr>)
            (filter (\<lambda>w. kod w \<in> set [u ''A'', u ''C'']) ?F))"
    by blast
  moreover have "filter (\<lambda>w. kod w \<in> set [u ''A'', u ''C'']) ?F =
      [\<lparr>kod = u ''A'', kolichestvo = u ''5'', tsena = u ''5'990.00''\<rparr>]"
    by (simp add: u_def)
  moreover from b market_create_prices_fails_iff[of "[]" ?F "[u ''A'', u ''B'']"]
  have "market_create_prices ?F [u ''A'', u ''B''] = Inl ValueError"
    by blast
  ultimately show ?thesis
    using d by simp
qed

text \<open>
  C4, as the claim states it, fails: \<open>create_prices\<close> emits nothing for an identifier
  that no feed record mentions, and it removes nothing from the identifier list, so a code
  that occurs twice in the feed is emitted twice.
\<close>

theorem create_prices_no_fallback_counterexample:
  "seller_create_prices [] [u ''A''] = [] \<and> market_create_prices [] [u ''A''] = Inr [] \<and>
   map price_offer_id
     (seller_create_prices
        [\<lparr>kod = u ''A'', kolichestvo = u ''5'', tsena = u ''100''\<rparr>,
         \<lparr>kod = u ''A'', kolichestvo = u ''5'', tsena = u ''200''\<rparr>] [u ''A'']) =
     [u ''A'', u ''A'']"
  by simp

text \<open>
  C4, amended. \<open>create_prices\<close> emits one entry, in feed order, for every feed record
  whose code is in the identifier list, and nothing else: the list is only read, and no
  fallback entry is emitted for an identifier that the feed does not mention. In seller.py
  the entry carries the digits of the price as a string; in market.py, when the call
  returns, it carries their decimal value.
\<close>

theorem create_prices_matching:
  "seller_create_prices F S =
     map (\<lambda>w. \<lparr>auto_action_enabled = u ''UNKNOWN'', currency_code = u ''RUB'',
               price_offer_id = kod w, old_price = u ''0'',
               price = price_conversion (tsena w)\<rparr>)
         (filter (\<lambda>w. kod w \<in> set S) F) \<and>
   (\<forall>ps. market_create_prices F S = Inr ps \<longrightarrow>
      ps = map (\<lambda>w. \<lparr>offer_price_id = kod w,
                     offer_price_body = \<lparr>price_value = int (decimal (price_conversion (tsena w))),
                                         currencyId = u ''RUR''\<rparr>\<rparr>)
            (filter (\<lambda>w. kod w \<in> set S) F))"
proof -
  have "ps = map (\<lambda>w. \<lparr>offer_price_id = kod w,
                     offer_price_body = \<lparr>price_value = int (decimal (price_conversion (tsena w))),
                                         currencyId = u ''RUR''\<rparr>\<rparr>)
            (filter (\<lambda>w. kod w \<in> set S) F)"
    if r: "market_create_prices F S = Inr ps" for ps
  proof -
    have "\<forall>w \<in> set F. kod w \<in> set S \<longrightarrow>
      price_conversion (tsena w) \<noteq> [] \<and> length (price_conversion (tsena w)) \<le> 4300"
    proof (rule ccontr)
      assume "\<not> ?thesis"
      then have "\<exists>w \<in> set F. kod w \<in> set S \<and>
          (price_conversion (tsena w) = [] \<or> 4300 < length (price_conversion (tsena w)))"
        by (auto simp: not_le)
      from market_create_prices_fail[OF this] r show False
        by simp
    qed
    from market_create_prices_ok[OF this] r show ?thesis
      by simp
  qed
  with seller_create_prices_eq[of F S] show ?thesis
    by blast
qed

theorem create_prices_matching_witness:
  "market_create_prices
     [\<lparr>kod = u ''A'', kolichestvo = u ''5'', tsena = u ''100''\<rparr>,
      \<lparr>kod = u ''A'', kolichestvo = u ''5'', tsena = u ''200''\<rparr>] [u ''A'', u ''C''] =
     Inr [\<lparr>offer_price_id = u ''A'',
           offer_price_body = \<lparr>price_value = 100, currencyId = u ''RUR''\<rparr>\<rparr>,
          \<lparr>offer_price_id = u ''A'',
           offer_price_body = \<lparr>price_value = 200, currencyId = u ''RUR''\<rparr>\<rparr>] \<and>
   map price (seller_create_prices
     [\<lparr>kod = u ''A'', kolichestvo = u ''5'', tsena = u ''100''\<rparr>,
      \<lparr>kod = u ''A'', kolichestvo = u ''5'', tsena = u ''200''\<rparr>] [u ''A'', u ''C'']) =
     [u ''100'', u ''200'']"
proof -
  let ?F = "[\<lparr>kod = u ''A'', kolichestvo = u ''5'', tsena = u ''100''\<rparr>,
      \<lparr>kod = u ''A'', kolichestvo = u ''5'', tsena = u ''200''\<rparr>]"
  let ?S = "[u ''A'', u ''C'']"
  have r: "market_create_prices ?F ?S =
     Inr [\<lparr>offer_price_id = u ''A'',
           offer_price_body = \<lparr>price_value = 100, currencyId = u ''RUR''\<rparr>\<rparr>,
          \<lparr>offer_price_id = u ''A'',
           offer_price_body = \<lparr>price_value = 200, currencyId = u ''RUR''\<rparr>\<rparr>]"
    by (rule trans[OF market_create_prices_ok])
       (simp_all add: price_conversion_eq decimal_def u_def is_digit_def)
  have "map price (seller_create_prices ?F ?S) = [u ''100'', u ''200'']"
    using create_prices_matching[of ?F ?S]
    by (simp add: price_conversion_eq u_def is_digit_def)
  with r show ?thesis
    by simp
qed

section \<open>Stock reconciliation\<close>

lemma filter_remove1_distinct:
  "distinct ids \<Longrightarrow> filter P (remove1 k ids) = filter (\<lambda>i. i \<noteq> k \<and> P i) ids"
  by (auto simp: distinct_remove1_removeAll removeAll_filter_not_eq intro: filter_cong)

lemma seller_stocks_loop_spec:
  assumes "distinct ids" "\<forall>w \<in> set F. \<not> isl (stock_of_count (kolichestvo w))"
  shows "\<exists>ms. seller_stocks_loop F acc ids =
           Inr (acc @ map (\<lambda>w. \<lparr>offer_id = kod w,
                                  stock = projr (stock_of_count (kolichestvo w))\<rparr>) ms,
                filter (\<lambda>i. i \<notin> kod ` set F) ids) \<and>
         subseq ms F \<and> distinct (map kod ms) \<and> kod ` set ms = set ids \<inter> kod ` set F \<and>
         (\<forall>w \<in> set ms. find (\<lambda>w'. kod w' = kod w) F = Some w)"
  using assms
proof (induction F arbitrary: acc ids)
  case Nil
  then show ?case by simp
next
  case (Cons w F)
  from Cons.prems obtain n where n: "stock_of_count (kolichestvo w) = Inr n"
    by (cases "stock_of_count (kolichestvo w)") auto
  show ?case
  proof (cases "kod w \<in> set ids")
    case True
    let ?ids = "remove1 (kod w) ids"
    let ?acc = "acc @ [\<lparr>offer_id = kod w, stock = n\<rparr>]"
    have d: "distinct ?ids" using Cons.prems by simp
    from Cons.IH[OF d, of ?acc] Cons.prems obtain ms where
      loop: "seller_stocks_loop F ?acc ?ids =
           Inr (?acc @ map (\<lambda>w. \<lparr>offer_id = kod w,
                                  stock = projr (stock_of_count (kolichestvo w))\<rparr>) ms,
                filter (\<lambda>i. i \<notin> kod ` set F) ?ids)"
      and sub: "subseq ms F" and dis: "distinct (map kod ms)"
      and st: "kod ` set ms = set ?ids \<inter> kod ` set F"
      and fi: "\<forall>w \<in> set ms. find (\<lambda>w'. kod w' = kod w) F = Some w"
      by auto
    have notin: "kod w \<notin> kod ` set ms"
      using st Cons.prems(1) by auto
    have left: "filter (\<lambda>i. i \<notin> kod ` set F) ?ids = filter (\<lambda>i. i \<notin> kod ` set (w # F)) ids"
      using Cons.prems(1) by (simp add: filter_remove1_distinct)
    have "seller_stocks_loop (w # F) acc ids =
           Inr (acc @ map (\<lambda>w. \<lparr>offer_id = kod w,
                                  stock = projr (stock_of_count (kolichestvo w))\<rparr>) (w # ms),
                filter (\<lambda>i. i \<notin> kod ` set (w # F)) ids)"
      using True n loop left by simp
    moreover have "subseq (w # ms) (w # F)" using sub by simp
    moreover have "distinct (map kod (w # ms))" using dis notin by simp
    moreover have "kod ` set (w # ms) = set ids \<inter> kod ` set (w # F)"
      using st True Cons.prems(1) by auto
    moreover have "\<forall>w' \<in> set (w # ms). find (\<lambda>v. kod v = kod w') (w # F) = Some w'"
      using fi notin by auto
    ultimately show ?thesis by blast
  next
    case False
    from Cons.IH[OF Cons.prems(1), of acc] Cons.prems obtain ms where
      loop: "seller_stocks_loop F acc ids =
           Inr (acc @ map (\<lambda>w. \<lparr>offer_id = kod w,
                                  stock = projr (stock_of_count (kolichestvo w))\<rparr>) ms,
                filter (\<lambda>i. i \<notin> kod ` set F) ids)"
      and sub: "subseq ms F" and dis: "distinct (map kod ms)"
      and st: "kod ` set ms = set ids \<inter> kod ` set F"
      and fi: "\<forall>w \<in> set ms. find (\<lambda>w'. kod w' = kod w) F = Some w"
      by auto
    have notin: "kod w \<notin> kod ` set ms"
      using st False by auto
    have left: "filter (\<lambda>i. i \<notin> kod ` set F) ids = filter (\<lambda>i. i \<notin> kod ` set (w # F)) ids"
      using False by (auto intro: filter_cong)
    have "seller_stocks_loop (w # F) acc ids =
           Inr (acc @ map (\<lambda>w. \<lparr>offer_id = kod w,
                                  stock = projr (stock_of_count (kolichestvo w))\<rparr>) ms,
                filter (\<lambda>i. i \<notin> kod ` set (w # F)) ids)"
      using False loop left by simp
    moreover have "subseq ms (w # F)" using sub by (rule list_emb_Cons)
    moreover have "kod ` set ms = set ids \<inter> kod ` set (w # F)"
      using st False by auto
    moreover have "\<forall>w' \<in> set ms. find (\<lambda>v. kod v = kod w') (w # F) = Some w'"
      using fi notin by auto
    ultimately show ?thesis using dis by blast
  qed
qed

lemma market_stocks_loop_conv:
  "market_stocks_loop date wh F (map (sku_of date wh) acc) ids =
     map_sum id (map_prod (map (sku_of date wh)) id) (seller_stocks_loop F acc ids)"
proof (induction F arbitrary: acc ids)
  case Nil
  then show ?case by simp
next
  case (Cons w F)
  show ?case
  proof (cases "stock_of_count (kolichestvo w)")
    case (Inl e)
    with Cons show ?thesis by simp
  next
    case (Inr n)
    have e: "sku_of date wh \<lparr>offer_id = kod w, stock = n\<rparr> =
        \<lparr>sku = kod w, warehouseId = wh,
         items = [\<lparr>count = n, item_type = u ''FIT'', updatedAt = date\<rparr>]\<rparr>"
      by (simp add: sku_of_def)
    from Cons[of acc] Cons[of "acc @ [\<lparr>offer_id = kod w, stock = n\<rparr>]"] Inr show ?thesis
      by (simp add: e)
  qed
qed

lemma market_create_stocks_conv:
  "market_create_stocks date F ids wh =
     map_sum id (map_prod (map (sku_of date wh)) id) (seller_create_stocks F ids)"
proof -
  have "(\<lambda>i. \<lparr>sku = i, warehouseId = wh,
             items = [\<lparr>count = 0, item_type = u ''FIT'', updatedAt = date\<rparr>]\<rparr>)
        = sku_of date wh \<circ> (\<lambda>i. \<lparr>offer_id = i, stock = 0\<rparr>)"
    by (simp add: sku_of_def fun_eq_iff)
  then show ?thesis
    using market_stocks_loop_conv[of date wh F "[]" ids]
    by (cases "seller_stocks_loop F [] ids")
       (auto simp: market_create_stocks_def seller_create_stocks_def)
qed


lemma seller_create_stocks_spec:
  assumes "distinct S" "\<forall>w \<in> set F. \<not> isl (stock_of_count (kolichestvo w))"
  shows "\<exists>ms. seller_create_stocks F S =
           Inr (map (\<lambda>w. \<lparr>offer_id = kod w,
                            stock = projr (stock_of_count (kolichestvo w))\<rparr>) ms @
                map (\<lambda>i. \<lparr>offer_id = i, stock = 0\<rparr>) (filter (\<lambda>i. i \<notin> kod ` set F) S),
                filter (\<lambda>i. i \<notin> kod ` set F) S) \<and>
         subseq ms F \<and> distinct (map kod ms) \<and> kod ` set ms = set S \<inter> kod ` set F \<and>
         (\<forall>w \<in> set ms. find (\<lambda>w'. kod w' = kod w) F = Some w)"
proof -
  from seller_stocks_loop_spec[OF assms, of "[]"] obtain ms where
    "seller_stocks_loop F [] S =
       Inr (map (\<lambda>w. \<lparr>offer_id = kod w,
                        stock = projr (stock_of_count (kolichestvo w))\<rparr>) ms,
            filter (\<lambda>i. i \<notin> kod ` set F) S)"
    and "subseq ms F \<and> distinct (map kod ms) \<and> kod ` set ms = set S \<inter> kod ` set F \<and>
         (\<forall>w \<in> set ms. find (\<lambda>w'. kod w' = kod w) F = Some w)"
    by auto
  then show ?thesis
    by (intro exI[of _ ms]) (simp add: seller_create_stocks_def)
qed

lemma seller_stocks_loop_leftover:
  "distinct ids \<Longrightarrow> seller_stocks_loop F acc ids = Inr (out, ids') \<Longrightarrow>
   ids' = filter (\<lambda>i. i \<notin> kod ` set F) ids"
proof (induction F arbitrary: acc ids)
  case Nil
  then show ?case by simp
next
  case (Cons w F)
  show ?case
  proof (cases "kod w \<in> set ids")
    case True
    with Cons.prems obtain n where
      "seller_stocks_loop F (acc @ [\<lparr>offer_id = kod w, stock = n\<rparr>]) (remove1 (kod w) ids)
         = Inr (out, ids')"
      by (auto split: sum.splits)
    from Cons.IH[OF _ this] Cons.prems(1)
    have "ids' = filter (\<lambda>i. i \<notin> kod ` set F) (remove1 (kod w) ids)"
      by simp
    then show ?thesis
      using Cons.prems(1) by (simp add: filter_remove1_distinct)
  next
    case False
    with Cons.prems have "seller_stocks_loop F acc ids = Inr (out, ids')"
      by simp
    from Cons.IH[OF Cons.prems(1) this] False show ?thesis
      by (auto intro: filter_cong)
  qed
qed

lemma first_records_subseq: "subseq (first_records F) F"
proof (induction F)
  case Nil
  then show ?case by simp
next
  case (Cons w F)
  have "subseq (filter (\<lambda>v. kod v \<noteq> kod w) (first_records F)) (first_records F)"
    by (rule subseq_filter_left)
  from this Cons.IH have "subseq (filter (\<lambda>v. kod v \<noteq> kod w) (first_records F)) F"
    by (rule subseq_order.trans)
  then show ?case by simp
qed

lemma first_records_first:
  "w \<in> set (first_records F) \<longleftrightarrow> find (\<lambda>v. kod v = kod w) F = Some w"
  by (induction F) auto

lemma seller_stocks_loop_matched:
  assumes "distinct ids" "\<forall>w \<in> set F. \<not> isl (stock_of_count (kolichestvo w))"
  shows "seller_stocks_loop F acc ids =
           Inr (acc @ map (\<lambda>w. \<lparr>offer_id = kod w,
                                  stock = projr (stock_of_count (kolichestvo w))\<rparr>)
                        (filter (\<lambda>w. kod w \<in> set ids) (first_records F)),
                filter (\<lambda>i. i \<notin> kod ` set F) ids)"
  using assms
proof (induction F arbitrary: acc ids)
  case Nil
  then show ?case by simp
next
  case (Cons w F)
  from Cons.prems obtain n where n: "stock_of_count (kolichestvo w) = Inr n"
    by (cases "stock_of_count (kolichestvo w)") auto
  show ?case
  proof (cases "kod w \<in> set ids")
    case True
    let ?ids = "remove1 (kod w) ids"
    have d: "distinct ?ids" using Cons.prems by simp
    have m: "filter (\<lambda>v. kod v \<in> set ?ids) (first_records F) =
        filter (\<lambda>v. kod v \<in> set ids) (filter (\<lambda>v. kod v \<noteq> kod w) (first_records F))"
      using Cons.prems(1) by (auto intro: filter_cong)
    have left: "filter (\<lambda>i. i \<notin> kod ` set F) ?ids = filter (\<lambda>i. i \<notin> kod ` set (w # F)) ids"
      using Cons.prems(1) by (simp add: filter_remove1_distinct)
    from Cons.IH[OF d, of "acc @ [\<lparr>offer_id = kod w, stock = n\<rparr>]"] Cons.prems(2)
    show ?thesis
      using True n by (simp add: m left)
  next
    case False
    have m: "filter (\<lambda>v. kod v \<noteq> kod w \<and> kod v \<in> set ids) (first_records F) =
        filter (\<lambda>v. kod v \<in> set ids) (first_records F)"
      using False by (auto intro: filter_cong)
    have left: "filter (\<lambda>i. i \<notin> kod ` set F) ids = filter (\<lambda>i. i \<notin> kod ` set (w # F)) ids"
      using False by (auto intro: filter_cong)
    from Cons.IH[OF Cons.prems(1), of acc] Cons.prems(2)
    show ?thesis
      using False by (simp add: m left)
  qed
qed

lemma stock_of_count_examples:
  "stock_of_count (u ''5'') = Inr 5" "stock_of_count (u ''7'') = Inr 7"
  "stock_of_count (u ''>10'') = Inr 100" "stock_of_count (u ''1'') = Inr 0"
  by (simp_all add: stock_of_count_def py_int_ascii_digits u_def is_digit_def decimal_def)

text \<open>
  C1. For a duplicate-free identifier list \<open>S\<close> and a feed whose quantities are all
  accepted by the quantity rule, \<open>create_stocks\<close> returns, and its output has exactly one
  entry for every identifier of \<open>S\<close> and no other entry: the identifiers of the output are
  distinct and are those of \<open>S\<close>. An identifier that the feed mentions carries the
  quantity of the first feed record with that code, normalized; any other carries 0. The
  output of market.py is the same list in the schema of Marketplace A.
\<close>

theorem create_stocks_one_entry_per_identifier:
  assumes "distinct S" "\<forall>w \<in> set F. \<not> isl (stock_of_count (kolichestvo w))"
  shows "\<exists>out S'. seller_create_stocks F S = Inr (out, S') \<and>
           market_create_stocks date F S wh = Inr (map (sku_of date wh) out, S') \<and>
           distinct (map offer_id out) \<and> set (map offer_id out) = set S \<and>
           (\<forall>e \<in> set out.
              case find (\<lambda>w. kod w = offer_id e) F of
                None \<Rightarrow> stock e = 0
              | Some w \<Rightarrow> stock_of_count (kolichestvo w) = Inr (stock e))"
proof -
  let ?entry = "\<lambda>w. \<lparr>offer_id = kod w, stock = projr (stock_of_count (kolichestvo w))\<rparr>"
  let ?zero = "\<lambda>i. \<lparr>offer_id = i, stock = 0\<rparr>"
  let ?left = "filter (\<lambda>i. i \<notin> kod ` set F) S"
  from seller_create_stocks_spec[OF assms] obtain ms where
    r: "seller_create_stocks F S = Inr (map ?entry ms @ map ?zero ?left, ?left)"
    and sub: "subseq ms F" and dis: "distinct (map kod ms)"
    and st: "kod ` set ms = set S \<inter> kod ` set F"
    and fi: "\<forall>w \<in> set ms. find (\<lambda>w'. kod w' = kod w) F = Some w"
    by blast
  let ?out = "map ?entry ms @ map ?zero ?left"
  have ids: "map offer_id ?out = map kod ms @ ?left"
    by (simp add: comp_def)
  have "market_create_stocks date F S wh = Inr (map (sku_of date wh) ?out, ?left)"
    unfolding market_create_stocks_conv r by simp
  moreover have "distinct (map offer_id ?out)"
    unfolding ids using dis assms(1) st by auto
  moreover have "set (map offer_id ?out) = set S"
    unfolding ids using st by auto
  moreover have "\<forall>e \<in> set ?out.
              case find (\<lambda>w. kod w = offer_id e) F of
                None \<Rightarrow> stock e = 0
              | Some w \<Rightarrow> stock_of_count (kolichestvo w) = Inr (stock e)"
  proof
    fix e assume "e \<in> set ?out"
    then consider w where "w \<in> set ms" "e = ?entry w" | i where "i \<in> set ?left" "e = ?zero i"
      by auto
    then show "case find (\<lambda>w. kod w = offer_id e) F of
                None \<Rightarrow> stock e = 0
              | Some w \<Rightarrow> stock_of_count (kolichestvo w) = Inr (stock e)"
    proof cases
      case 1
      from sub 1(1) have "w \<in> set F"
        by (auto dest: list_emb_set)
      with assms(2) have "\<not> isl (stock_of_count (kolichestvo w))" by blast
      then have "stock_of_count (kolichestvo w) = Inr (projr (stock_of_count (kolichestvo w)))"
        by (cases "stock_of_count (kolichestvo w)") auto
      with fi 1 show ?thesis by simp
    next
      case 2
      then have "find (\<lambda>w. kod w = i) F = None"
        by (auto simp: find_None_iff)
      with 2 show ?thesis by simp
    qed
  qed
  ultimately show ?thesis
    using r by blast
qed

theorem create_stocks_one_entry_per_identifier_witness:
  "distinct [u ''A'', u ''C''] \<and>
   (\<exists>out S'. seller_create_stocks
       [\<lparr>kod = u ''A'', kolichestvo = u ''5'', tsena = u ''100''\<rparr>,
      \<lparr>kod = u ''A'', kolichestvo = u ''7'', tsena = u ''100''\<rparr>,
      \<lparr>kod = u ''D'', kolichestvo = u ''>10'', tsena = u ''100''\<rparr>] [u ''A'', u ''C''] = Inr (out, S') \<and>
      market_create_stocks (u ''2024-01-01T00:00:00Z'')
       [\<lparr>kod = u ''A'', kolichestvo = u ''5'', tsena = u ''100''\<rparr>,
      \<lparr>kod = u ''A'', kolichestvo = u ''7'', tsena = u ''100''\<rparr>,
      \<lparr>kod = u ''D'', kolichestvo = u ''>10'', tsena = u ''100''\<rparr>] [u ''A'', u ''C''] (u ''W'') =
        Inr (map (sku_of (u ''2024-01-01T00:00:00Z'') (u ''W'')) out, S') \<and>
      distinct (map offer_id out) \<and> set (map offer_id out) = set [u ''A'', u ''C''])"
proof -
  let ?F = "[\<lparr>kod = u ''A'', kolichestvo = u ''5'', tsena = u ''100''\<rparr>,
      \<lparr>kod = u ''A'', kolichestvo = u ''7'', tsena = u ''100''\<rparr>,
      \<lparr>kod = u ''D'', kolichestvo = u ''>10'', tsena = u ''100''\<rparr>]"
  have d: "distinct [u ''A'', u ''C'']"
    by (simp add: u_def)
  have ok: "\<forall>w \<in> set ?F. \<not> isl (stock_of_count (kolichestvo w))"
    by (simp add: stock_of_count_examples)
  from create_stocks_one_entry_per_identifier[OF d ok,
      of "u ''2024-01-01T00:00:00Z''" "u ''W''"] d
  show ?thesis
    by blast
qed

text \<open>
  C6. The feed \<open>[{A, ">10"}, {B, "1"}]\<close> with the identifiers \<open>[A, B, C]\<close> gives
  \<open>[{A,100}, {B,0}, {C,0}]\<close>. In general, for a duplicate-free identifier list and
  accepted quantities, the output is the entries of the matched feed records, in feed
  order, followed by the zero entries of the identifiers that no feed record mentions, in
  the order of the identifier list. The matched feed records are those whose code is in
  the identifier list and that are the first of their code in the feed.
\<close>

theorem create_stocks_order:
  "seller_create_stocks
     [\<lparr>kod = u ''A'', kolichestvo = u ''>10'', tsena = u ''100''\<rparr>,
      \<lparr>kod = u ''B'', kolichestvo = u ''1'', tsena = u ''100''\<rparr>] [u ''A'', u ''B'', u ''C''] =
     Inr ([\<lparr>offer_id = u ''A'', stock = 100\<rparr>, \<lparr>offer_id = u ''B'', stock = 0\<rparr>,
           \<lparr>offer_id = u ''C'', stock = 0\<rparr>], [u ''C'']) \<and>
   (distinct S \<longrightarrow> (\<forall>w \<in> set F. \<not> isl (stock_of_count (kolichestvo w))) \<longrightarrow>
      seller_create_stocks F S =
        Inr (map (\<lambda>w. \<lparr>offer_id = kod w,
                         stock = projr (stock_of_count (kolichestvo w))\<rparr>)
               (filter (\<lambda>w. kod w \<in> set S) (first_records F)) @
             map (\<lambda>i. \<lparr>offer_id = i, stock = 0\<rparr>) (filter (\<lambda>i. i \<notin> kod ` set F) S),
             filter (\<lambda>i. i \<notin> kod ` set F) S)) \<and>
   subseq (filter (\<lambda>w. kod w \<in> set S) (first_records F)) F \<and>
   (\<forall>w. w \<in> set (filter (\<lambda>w. kod w \<in> set S) (first_records F)) \<longleftrightarrow>
      kod w \<in> set S \<and> find (\<lambda>v. kod v = kod w) F = Some w)"
proof -
  have "seller_create_stocks
     [\<lparr>kod = u ''A'', kolichestvo = u ''>10'', tsena = u ''100''\<rparr>,
      \<lparr>kod = u ''B'', kolichestvo = u ''1'', tsena = u ''100''\<rparr>] [u ''A'', u ''B'', u ''C''] =
     Inr ([\<lparr>offer_id = u ''A'', stock = 100\<rparr>, \<lparr>offer_id = u ''B'', stock = 0\<rparr>,
           \<lparr>offer_id = u ''C'', stock = 0\<rparr>], [u ''C''])"
    by (simp add: seller_create_stocks_def stock_of_count_def u_def)
  moreover have "seller_create_stocks F S =
        Inr (map (\<lambda>w. \<lparr>offer_id = kod w,
                         stock = projr (stock_of_count (kolichestvo w))\<rparr>)
               (filter (\<lambda>w. kod w \<in> set S) (first_records F)) @
             map (\<lambda>i. \<lparr>offer_id = i, stock = 0\<rparr>) (filter (\<lambda>i. i \<notin> kod ` set F) S),
             filter (\<lambda>i. i \<notin> kod ` set F) S)"
    if "distinct S" "\<forall>w \<in> set F. \<not> isl (stock_of_count (kolichestvo w))"
    using seller_stocks_loop_matched[OF that, of "[]"]
    by (simp add: seller_create_stocks_def)
  moreover have "subseq (filter (\<lambda>w. kod w \<in> set S) (first_records F)) F"
    using subseq_filter_left first_records_subseq by (rule subseq_order.trans)
  moreover have "w \<in> set (filter (\<lambda>w. kod w \<in> set S) (first_records F)) \<longleftrightarrow>
      kod w \<in> set S \<and> find (\<lambda>v. kod v = kod w) F = Some w" for w
    by (auto simp: first_records_first)
  ultimately show ?thesis
    by blast
qed

theorem create_stocks_order_witness:
  "distinct [u ''A'', u ''C''] \<and>
   seller_create_stocks [\<lparr>kod = u ''A'', kolichestvo = u ''5'', tsena = u ''100''\<rparr>,
      \<lparr>kod = u ''A'', kolichestvo = u ''7'', tsena = u ''100''\<rparr>,
      \<lparr>kod = u ''D'', kolichestvo = u ''>10'', tsena = u ''100''\<rparr>] [u ''A'', u ''C''] =
     Inr ([\<lparr>offer_id = u ''A'', stock = 5\<rparr>, \<lparr>offer_id = u ''C'', stock = 0\<rparr>], [u ''C''])"
proof -
  let ?F = "[\<lparr>kod = u ''A'', kolichestvo = u ''5'', tsena = u ''100''\<rparr>,
      \<lparr>kod = u ''A'', kolichestvo = u ''7'', tsena = u ''100''\<rparr>,
      \<lparr>kod = u ''D'', kolichestvo = u ''>10'', tsena = u ''100''\<rparr>]"
  have d: "distinct [u ''A'', u ''C'']"
    by (simp add: u_def)
  have ok: "\<forall>w \<in> set ?F. \<not> isl (stock_of_count (kolichestvo w))"
    by (simp add: stock_of_count_examples)
  have left: "filter (\<lambda>i. i \<notin> kod ` set ?F) [u ''A'', u ''C''] = [u ''C'']"
    by (simp add: u_def)
  have m: "filter (\<lambda>w. kod w \<in> set [u ''A'', u ''C'']) (first_records ?F) =
      [\<lparr>kod = u ''A'', kolichestvo = u ''5'', tsena = u ''100''\<rparr>]"
    by (simp add: u_def)
  from create_stocks_order[of "[u ''A'', u ''C'']" ?F] d ok
  have "seller_create_stocks ?F [u ''A'', u ''C''] =
        Inr (map (\<lambda>w. \<lparr>offer_id = kod w,
                         stock = projr (stock_of_count (kolichestvo w))\<rparr>)
               (filter (\<lambda>w. kod w \<in> set [u ''A'', u ''C'']) (first_records ?F)) @
             map (\<lambda>i. \<lparr>offer_id = i, stock = 0\<rparr>)
               (filter (\<lambda>i. i \<notin> kod ` set ?F) [u ''A'', u ''C'']),
             filter (\<lambda>i. i \<notin> kod ` set ?F) [u ''A'', u ''C''])"
    by blast
  then show ?thesis
    unfolding left m using d by (simp add: stock_of_count_examples)
qed

text \<open>
  C9. On a duplicate-free identifier list, \<open>create_stocks\<close> leaves in the caller's list
  exactly the identifiers that no feed record mentions, in their old order: every matched
  identifier is gone and nothing else has changed. This is the list after every call that
  returns, and the call does return when the quantities of the feed are accepted.
\<close>

theorem create_stocks_leftover_identifiers:
  "distinct S \<Longrightarrow>
   (\<forall>out S'. seller_create_stocks F S = Inr (out, S') \<longrightarrow>
      S' = filter (\<lambda>i. i \<notin> kod ` set F) S) \<and>
   (\<forall>out S'. market_create_stocks date F S wh = Inr (out, S') \<longrightarrow>
      S' = filter (\<lambda>i. i \<notin> kod ` set F) S) \<and>
   ((\<forall>w \<in> set F. \<not> isl (stock_of_count (kolichestvo w))) \<longrightarrow>
      (\<exists>out. seller_create_stocks F S = Inr (out, filter (\<lambda>i. i \<notin> kod ` set F) S)) \<and>
      (\<exists>out. market_create_stocks date F S wh = Inr (out, filter (\<lambda>i. i \<notin> kod ` set F) S)))"
proof -
  assume d: "distinct S"
  have a: "S' = filter (\<lambda>i. i \<notin> kod ` set F) S"
    if "seller_create_stocks F S = Inr (out, S')" for out S'
    using that seller_stocks_loop_leftover[OF d, of F "[]"]
    by (auto simp: seller_create_stocks_def split: sum.splits)
  have b: "S' = filter (\<lambda>i. i \<notin> kod ` set F) S"
    if "market_create_stocks date F S wh = Inr (out, S')" for out S'
    using that a unfolding market_create_stocks_conv
    by (cases "seller_create_stocks F S") auto
  have c: "(\<exists>out. seller_create_stocks F S = Inr (out, filter (\<lambda>i. i \<notin> kod ` set F) S)) \<and>
      (\<exists>out. market_create_stocks date F S wh = Inr (out, filter (\<lambda>i. i \<notin> kod ` set F) S))"
    if ok: "\<forall>w \<in> set F. \<not> isl (stock_of_count (kolichestvo w))"
  proof -
    from seller_create_stocks_spec[OF d ok] obtain out where
      r: "seller_create_stocks F S = Inr (out, filter (\<lambda>i. i \<notin> kod ` set F) S)"
      by blast
    then have "market_create_stocks date F S wh =
        Inr (map (sku_of date wh) out, filter (\<lambda>i. i \<notin> kod ` set F) S)"
      unfolding market_create_stocks_conv by simp
    with r show ?thesis
      by blast
  qed
  from a b c show ?thesis
    by blast
qed

theorem create_stocks_leftover_identifiers_witness:
  "distinct [u ''A'', u ''C''] \<and>
   seller_create_stocks [\<lparr>kod = u ''A'', kolichestvo = u ''5'', tsena = u ''100''\<rparr>,
      \<lparr>kod = u ''A'', kolichestvo = u ''7'', tsena = u ''100''\<rparr>,
      \<lparr>kod = u ''D'', kolichestvo = u ''>10'', tsena = u ''100''\<rparr>] [u ''A'', u ''C''] =
     Inr ([\<lparr>offer_id = u ''A'', stock = 5\<rparr>, \<lparr>offer_id = u ''C'', stock = 0\<rparr>], [u ''C'']) \<and>
   (\<exists>out. market_create_stocks (u ''2024-01-01T00:00:00Z'') [\<lparr>kod = u ''A'', kolichestvo = u ''5'', tsena = u ''100''\<rparr>,
      \<lparr>kod = u ''A'', kolichestvo = u ''7'', tsena = u ''100''\<rparr>,
      \<lparr>kod = u ''D'', kolichestvo = u ''>10'', tsena = u ''100''\<rparr>]
      [u ''A'', u ''C''] (u ''W'') = Inr (out, [u ''C''])) \<and>
   [u ''C''] = filter (\<lambda>i. i \<notin> kod ` set [\<lparr>kod = u ''A'', kolichestvo = u ''5'', tsena = u ''100''\<rparr>,
      \<lparr>kod = u ''A'', kolichestvo = u ''7'', tsena = u ''100''\<rparr>,
      \<lparr>kod = u ''D'', kolichestvo = u ''>10'', tsena = u ''100''\<rparr>]) [u ''A'', u ''C'']"
proof -
  let ?F = "[\<lparr>kod = u ''A'', kolichestvo = u ''5'', tsena = u ''100''\<rparr>,
      \<lparr>kod = u ''A'', kolichestvo = u ''7'', tsena = u ''100''\<rparr>,
      \<lparr>kod = u ''D'', kolichestvo = u ''>10'', tsena = u ''100''\<rparr>]"
  have d: "distinct [u ''A'', u ''C'']"
    by (simp add: u_def)
  have ok: "\<forall>w \<in> set ?F. \<not> isl (stock_of_count (kolichestvo w))"
    by (simp add: stock_of_count_examples)
  have left: "filter (\<lambda>i. i \<notin> kod ` set ?F) [u ''A'', u ''C''] = [u ''C'']"
    by (simp add: u_def)
  have r: "seller_create_stocks ?F [u ''A'', u ''C''] =
     Inr ([\<lparr>offer_id = u ''A'', stock = 5\<rparr>, \<lparr>offer_id = u ''C'', stock = 0\<rparr>], [u ''C''])"
    by (simp add: seller_create_stocks_def stock_of_count_examples) (simp add: u_def)
  from create_stocks_leftover_identifiers[OF d, of ?F "u ''2024-01-01T00:00:00Z''" "u ''W''"] ok
  have "\<exists>out. market_create_stocks (u ''2024-01-01T00:00:00Z'') ?F [u ''A'', u ''C''] (u ''W'') =
      Inr (out, filter (\<lambda>i. i \<notin> kod ` set ?F) [u ''A'', u ''C''])"
    by blast
  with d r left show ?thesis
    by simp
qed

text \<open>
  C5, as the claim states it, fails for \<open>create_stocks\<close> of market.py: every entry carries
  the clock reading of the call, so two runs in different seconds give different lists.
\<close>

theorem create_stocks_timestamp_counterexample:
  "market_create_stocks (u ''2024-01-01T00:00:00Z'') [] [u ''A''] (u ''W'') \<noteq>
   market_create_stocks (u ''2024-01-01T00:00:01Z'') [] [u ''A''] (u ''W'')"
  by (simp add: market_create_stocks_def u_def)

text \<open>
  C5, amended. Two runs of \<open>create_stocks\<close> of market.py on the same feed and a fresh copy
  of the same identifier list give the same list up to the field \<open>updatedAt\<close>: the result
  of the second run is the result of the first with every \<open>updatedAt\<close> replaced by the
  second clock reading (and so the same list when both runs read the same second). The
  other three functions read nothing but their arguments.
\<close>

theorem create_stocks_rerun:
  "market_create_stocks d2 F S wh =
     map_sum id
       (map_prod (map (\<lambda>e. e\<lparr>items := map (\<lambda>i. i\<lparr>updatedAt := d2\<rparr>) (items e)\<rparr>)) id)
       (market_create_stocks d1 F S wh)"
  unfolding market_create_stocks_conv
  by (cases "seller_create_stocks F S") (auto simp: sku_of_def)


theorem create_stocks_rerun_witness:
  "market_create_stocks (u ''2024-01-01T00:00:01Z'') [] [u ''A''] (u ''W'') =
     Inr ([\<lparr>sku = u ''A'', warehouseId = u ''W'',
            items = [\<lparr>count = 0, item_type = u ''FIT'',
                      updatedAt = u ''2024-01-01T00:00:01Z''\<rparr>]\<rparr>], [u ''A''])"
proof -
  have "market_create_stocks (u ''2024-01-01T00:00:00Z'') [] [u ''A''] (u ''W'') =
     Inr ([\<lparr>sku = u ''A'', warehouseId = u ''W'',
            items = [\<lparr>count = 0, item_type = u ''FIT'',
                      updatedAt = u ''2024-01-01T00:00:00Z''\<rparr>]\<rparr>], [u ''A''])"
    by (simp add: market_create_stocks_def)
  with create_stocks_rerun[of "u ''2024-01-01T00:00:01Z''" "[]" "[u ''A'']" "u ''W''"
      "u ''2024-01-01T00:00:00Z''"]
  show ?thesis
    by simp
qed

section \<open>The offer resolvers return the identifiers of the pages\<close>

lemma seller_products_loop_pages:
  assumes "length (seller_pages api s c (Suc k)) = Suc k"
    and "\<forall>j < k. total (seller_pages api s c (Suc k) ! j) \<noteq>
           int (length acc + length (concat (map page_items (take (Suc j) (seller_pages api s c (Suc k))))))"
    and "total (seller_pages api s c (Suc k) ! k) =
           int (length acc + length (concat (map page_items (seller_pages api s c (Suc k)))))"
  shows "\<exists>s'. seller_products_loop api s c acc =
           Some (Inr (acc @ concat (map page_items (seller_pages api s c (Suc k)))), s')"
  using assms
proof (induction k arbitrary: s c acc)
  case 0
  then obtain p s1 where p: "api s c = (Inr p, s1)"
    by (cases "api s c"; cases "fst (api s c)") auto
  with 0 show ?case
    by (subst seller_products_loop.simps) simp
next
  case (Suc k)
  then obtain p s1 where p: "api s c = (Inr p, s1)"
    by (cases "api s c"; cases "fst (api s c)") auto
  let ?ps = "seller_pages api s1 (last_id p) (Suc k)"
  have ps: "seller_pages api s c (Suc (Suc k)) = p # ?ps"
    using p by simp
  have len: "length ?ps = Suc k"
    using Suc.prems(1) unfolding ps by simp
  have first: "total p \<noteq> int (length (acc @ page_items p))"
    using Suc.prems(2)[rule_format, of 0] unfolding ps by simp
  have mid: "\<forall>j < k. total (?ps ! j) \<noteq>
      int (length (acc @ page_items p) + length (concat (map page_items (take (Suc j) ?ps))))"
  proof (intro allI impI)
    fix j assume "j < k"
    then have "Suc j < Suc k" by simp
    from Suc.prems(2)[rule_format, OF this] show "total (?ps ! j) \<noteq>
      int (length (acc @ page_items p) + length (concat (map page_items (take (Suc j) ?ps))))"
      unfolding ps by (simp add: add.assoc)
  qed
  have lst: "total (?ps ! k) =
      int (length (acc @ page_items p) + length (concat (map page_items ?ps)))"
    using Suc.prems(3) unfolding ps by (simp add: add.assoc)
  from Suc.IH[OF len mid lst] obtain s' where
    "seller_products_loop api s1 (last_id p) (acc @ page_items p) =
       Some (Inr ((acc @ page_items p) @ concat (map page_items ?ps)), s')"
    by blast
  with p first show ?case
    unfolding ps by (subst seller_products_loop.simps) simp
qed

lemma market_products_loop_pages:
  assumes "length (market_pages api s c (Suc k)) = Suc k"
    and "\<forall>j < k. \<not> falsy (nextPageToken (market_pages api s c (Suc k) ! j))"
    and "falsy (nextPageToken (market_pages api s c (Suc k) ! k))"
  shows "\<exists>s'. market_products_loop api s c acc =
           Some (Inr (acc @ concat (map offerMappingEntries (market_pages api s c (Suc k)))), s')"
  using assms
proof (induction k arbitrary: s c acc)
  case 0
  then obtain p s1 where p: "api s c = (Inr p, s1)"
    by (cases "api s c"; cases "fst (api s c)") auto
  with 0 show ?case
    by (subst market_products_loop.simps) simp
next
  case (Suc k)
  then obtain p s1 where p: "api s c = (Inr p, s1)"
    by (cases "api s c"; cases "fst (api s c)") auto
  let ?ps = "market_pages api s1 (nextPageToken p) (Suc k)"
  have ps: "market_pages api s c (Suc (Suc k)) = p # ?ps"
    using p by simp
  have len: "length ?ps = Suc k"
    using Suc.prems(1) unfolding ps by simp
  have first: "\<not> falsy (nextPageToken p)"
    using Suc.prems(2)[rule_format, of 0] unfolding ps by simp
  have mid: "\<forall>j < k. \<not> falsy (nextPageToken (?ps ! j))"
  proof (intro allI impI)
    fix j assume "j < k"
    then have "Suc j < Suc k" by simp
    from Suc.prems(2)[rule_format, OF this] show "\<not> falsy (nextPageToken (?ps ! j))"
      unfolding ps by simp
  qed
  have lst: "falsy (nextPageToken (?ps ! k))"
    using Suc.prems(3) unfolding ps by simp
  from Suc.IH[OF len mid lst] obtain s' where
    "market_products_loop api s1 (nextPageToken p) (acc @ offerMappingEntries p) =
       Some (Inr ((acc @ offerMappingEntries p) @ concat (map offerMappingEntries ?ps)), s')"
    by blast
  with p first show ?case
    unfolding ps by (subst market_products_loop.simps) simp
qed

text \<open>
  C8. If the first \<open>k + 1\<close> calls of the list endpoint succeed, the termination signal is
  absent after each of the first \<open>k\<close> responses and present after the last one, then
  \<open>get_offer_ids\<close> returns the identifier field of every item of these \<open>k + 1\<close>
  responses, in the order received. The signal is, in seller.py, that the reported total
  equals the number of items accumulated so far and, in market.py, that the next-page
  token is absent or empty.
\<close>

theorem get_offer_ids_pagination:
  "(length (seller_pages api s [] (Suc k)) = Suc k \<longrightarrow>
    (\<forall>j < k. total (seller_pages api s [] (Suc k) ! j) \<noteq>
       int (length (concat (map page_items (take (Suc j) (seller_pages api s [] (Suc k))))))) \<longrightarrow>
    total (seller_pages api s [] (Suc k) ! k) =
       int (length (concat (map page_items (seller_pages api s [] (Suc k))))) \<longrightarrow>
    (\<exists>s'. seller_get_offer_ids api s =
       Some (Inr (map product_offer_id (concat (map page_items (seller_pages api s [] (Suc k))))),
             s'))) \<and>
   (length (market_pages mapi t (Some []) (Suc k)) = Suc k \<longrightarrow>
    (\<forall>j < k. \<not> falsy (nextPageToken (market_pages mapi t (Some []) (Suc k) ! j))) \<longrightarrow>
    falsy (nextPageToken (market_pages mapi t (Some []) (Suc k) ! k)) \<longrightarrow>
    (\<exists>t'. market_get_offer_ids mapi t =
       Some (Inr (map (\<lambda>p. shopSku (entry_offer p))
                    (concat (map offerMappingEntries (market_pages mapi t (Some []) (Suc k))))),
             t')))"
proof (intro conjI impI)
  assume "length (seller_pages api s [] (Suc k)) = Suc k"
    and "\<forall>j < k. total (seller_pages api s [] (Suc k) ! j) \<noteq>
       int (length (concat (map page_items (take (Suc j) (seller_pages api s [] (Suc k))))))"
    and "total (seller_pages api s [] (Suc k) ! k) =
       int (length (concat (map page_items (seller_pages api s [] (Suc k)))))"
  with seller_products_loop_pages[of api s "[]" k "[]"] obtain s' where
    "seller_products_loop api s [] [] =
       Some (Inr (concat (map page_items (seller_pages api s [] (Suc k)))), s')"
    by auto
  then show "\<exists>s'. seller_get_offer_ids api s =
       Some (Inr (map product_offer_id (concat (map page_items (seller_pages api s [] (Suc k))))),
             s')"
    by (simp add: seller_get_offer_ids_def)
next
  assume "length (market_pages mapi t (Some []) (Suc k)) = Suc k"
    and "\<forall>j < k. \<not> falsy (nextPageToken (market_pages mapi t (Some []) (Suc k) ! j))"
    and "falsy (nextPageToken (market_pages mapi t (Some []) (Suc k) ! k))"
  with market_products_loop_pages[of mapi t "Some []" k "[]"] obtain t' where
    "market_products_loop mapi t (Some []) [] =
       Some (Inr (concat (map offerMappingEntries (market_pages mapi t (Some []) (Suc k)))), t')"
    by auto
  then show "\<exists>t'. market_get_offer_ids mapi t =
       Some (Inr (map (\<lambda>p. shopSku (entry_offer p))
                    (concat (map offerMappingEntries (market_pages mapi t (Some []) (Suc k))))),
             t')"
    by (simp add: market_get_offer_ids_def)
qed


theorem get_offer_ids_pagination_witness:
  "(\<exists>s'. seller_get_offer_ids
      (\<lambda>(s :: nat) c.
         if c = [] then
           (Inr \<lparr>page_items = [\<lparr>product_offer_id = u ''A''\<rparr>, \<lparr>product_offer_id = u ''B''\<rparr>],
                 total = 3, last_id = u ''x''\<rparr>, s + 1)
         else (Inr \<lparr>page_items = [\<lparr>product_offer_id = u ''C''\<rparr>], total = 3,
                     last_id = u ''y''\<rparr>, s + 1)) 0 =
      Some (Inr [u ''A'', u ''B'', u ''C''], s')) \<and>
   (\<exists>t'. market_get_offer_ids
      (\<lambda>(t :: nat) c.
         if c = Some [] then
           (Inr \<lparr>offerMappingEntries = [\<lparr>entry_offer = \<lparr>shopSku = u ''A''\<rparr>\<rparr>],
                 nextPageToken = Some (u ''p2'')\<rparr>, t + 1)
         else (Inr \<lparr>offerMappingEntries = [\<lparr>entry_offer = \<lparr>shopSku = u ''B''\<rparr>\<rparr>],
                     nextPageToken = None\<rparr>, t + 1)) 0 =
      Some (Inr [u ''A'', u ''B''], t'))"
  using get_offer_ids_pagination[of
      "\<lambda>(s :: nat) c.
         if c = [] then
           (Inr \<lparr>page_items = [\<lparr>product_offer_id = u ''A''\<rparr>, \<lparr>product_offer_id = u ''B''\<rparr>],
                 total = 3, last_id = u ''x''\<rparr>, s + 1)
         else (Inr \<lparr>page_items = [\<lparr>product_offer_id = u ''C''\<rparr>], total = 3,
                     last_id = u ''y''\<rparr>, s + 1)"
      0 "Suc 0"
      "\<lambda>(t :: nat) c.
         if c = Some [] then
           (Inr \<lparr>offerMappingEntries = [\<lparr>entry_offer = \<lparr>shopSku = u ''A''\<rparr>\<rparr>],
                 nextPageToken = Some (u ''p2'')\<rparr>, t + 1)
         else (Inr \<lparr>offerMappingEntries = [\<lparr>entry_offer = \<lparr>shopSku = u ''B''\<rparr>\<rparr>],
                     nextPageToken = None\<rparr>, t + 1)"
      0]
  by (simp add: falsy_def u_def)

end
